theory Spec2Isabelle
  imports Complex_Main "HOL-Library.Char_ord" "HOL-Library.List_Lexorder" "HOL-Library.Multiset"
begin

section \<open>Text helpers shared by the scripts\<close>

text \<open>
  Python strings are sequences of code points; they are modelled as \<open>string\<close>, whose
  characters are the code points 0..255. On these, \<open>str.strip()\<close> removes the code
  points for which \<open>str.isspace\<close> holds (9..13, 28..32, 133 and 160),
  \<open>string.punctuation\<close> is the 32 ASCII punctuation characters (33..47, 58..64, 91..96,
  123..126), and \<open>str.lower\<close> maps A..Z and the capitals 192..214 and 216..222 to the
  letter 32 places further on. Text with code points above 255 is outside the model.
\<close>

definition is_space :: "char \<Rightarrow> bool" where
  "is_space c =
     (let n = (of_char c :: nat)
      in (9 \<le> n \<and> n \<le> 13) \<or> (28 \<le> n \<and> n \<le> 32) \<or> n = 133 \<or> n = 160)"

definition is_punctuation :: "char \<Rightarrow> bool" where
  "is_punctuation c =
     (let n = (of_char c :: nat)
      in (33 \<le> n \<and> n \<le> 47) \<or> (58 \<le> n \<and> n \<le> 64) \<or> (91 \<le> n \<and> n \<le> 96) \<or> (123 \<le> n \<and> n \<le> 126))"

definition lower_char :: "char \<Rightarrow> char" where
  "lower_char c =
     (let n = (of_char c :: nat)
      in if (65 \<le> n \<and> n \<le> 90) \<or> (192 \<le> n \<and> n \<le> 214) \<or> (216 \<le> n \<and> n \<le> 222)
         then char_of (n + 32) else c)"

definition lower :: "string \<Rightarrow> string" where
  "lower s = map lower_char s"

definition rstrip_by :: "(char \<Rightarrow> bool) \<Rightarrow> string \<Rightarrow> string" where
  "rstrip_by P s = rev (dropWhile P (rev s))"

definition lstrip_by :: "(char \<Rightarrow> bool) \<Rightarrow> string \<Rightarrow> string" where
  "lstrip_by P s = dropWhile P s"

definition strip :: "string \<Rightarrow> string" where
  "strip s = rstrip_by is_space (lstrip_by is_space s)"

text \<open>
  \<open>s.split(sep)\<close> for a non-empty separator: the pieces between the leftmost,
  non-overlapping occurrences of \<open>sep\<close>. The scripts only split at the literals
  \<open>'_'\<close> and \<open>'_segment_'\<close>; for an empty separator, where Python raises, the model
  returns the string unsplit.
\<close>

fun str_split_from :: "string \<Rightarrow> string \<Rightarrow> string \<Rightarrow> string list" where
  "str_split_from sep cur [] = [cur]"
| "str_split_from sep cur (c # cs) =
     (if sep \<noteq> [] \<and> take (length sep) (c # cs) = sep
      then cur # str_split_from sep [] (drop (length sep - 1) cs)
      else str_split_from sep (cur @ [c]) cs)"

definition str_split :: "string \<Rightarrow> string \<Rightarrow> string list" where
  "str_split sep s = str_split_from sep [] s"

text \<open>\<open>sep.join(xs)\<close>\<close>

fun str_join :: "string \<Rightarrow> string list \<Rightarrow> string" where
  "str_join sep [] = []"
| "str_join sep [x] = x"
| "str_join sep (x # y # ys) = x @ sep @ str_join sep (y # ys)"

text \<open>\<open>s.replace(old, new)\<close>, for a non-empty \<open>old\<close>.\<close>

definition str_replace :: "string \<Rightarrow> string \<Rightarrow> string \<Rightarrow> string" where
  "str_replace old new s = str_join new (str_split old s)"

definition startswith :: "string \<Rightarrow> string \<Rightarrow> bool" where
  "startswith s pre = (take (length pre) s = pre)"

definition endswith :: "string \<Rightarrow> string \<Rightarrow> bool" where
  "endswith s suf = (length suf \<le> length s \<and> drop (length s - length suf) s = suf)"

definition is_digit :: "char \<Rightarrow> bool" where
  "is_digit c = (let n = (of_char c :: nat) in 48 \<le> n \<and> n \<le> 57)"

text \<open>
  \<open>c.isalnum()\<close> on the code points 0..255: the ASCII digits and letters, the letters
  170, 181, 186, 192..214, 216..246 and 248..255, and the numeric characters 178, 179,
  185 and 188..190.
\<close>

definition isalnum :: "char \<Rightarrow> bool" where
  "isalnum c =
     (let n = (of_char c :: nat)
      in (48 \<le> n \<and> n \<le> 57) \<or> (65 \<le> n \<and> n \<le> 90) \<or> (97 \<le> n \<and> n \<le> 122)
         \<or> n = 170 \<or> n = 178 \<or> n = 179 \<or> n = 181 \<or> n = 185 \<or> n = 186
         \<or> (188 \<le> n \<and> n \<le> 190) \<or> (192 \<le> n \<and> n \<le> 214)
         \<or> (216 \<le> n \<and> n \<le> 246) \<or> (248 \<le> n \<and> n \<le> 255))"

text \<open>\<open>os.path.join(a, b)\<close> for a relative \<open>b\<close>, as every second argument in the scripts is.\<close>

definition path_join :: "string \<Rightarrow> string \<Rightarrow> string" where
  "path_join a b = a @ ''/'' @ b"

text \<open>\<open>os.path.basename\<close> and the root part of \<open>os.path.splitext\<close>.\<close>

definition basename :: "string \<Rightarrow> string" where
  "basename p = rev (takeWhile (\<lambda>c. c \<noteq> CHR ''/'') (rev p))"

definition splitext_root :: "string \<Rightarrow> string" where
  "splitext_root p =
     (let name = basename p;
          ext = takeWhile (\<lambda>c. c \<noteq> CHR ''.'') (rev name);
          stem = take (length name - length ext - 1) name
      in if length ext = length name \<or> list_all (\<lambda>c. c = CHR ''.'') stem then p
         else take (length p - length ext - 1) p)"

section \<open>audio.py\<close>

text \<open>\<open>word.strip().rstrip(string.punctuation).lower()\<close>\<close>

definition normalize_word :: "string \<Rightarrow> string" where
  "normalize_word w = lower (rstrip_by is_punctuation (strip w))"

text \<open>
  The transcription engine is external: its result is an input of the model, a list of
  segments, each a list of words with the text and the start time. Times are Python
  floats; \<open>process_audio_file\<close> only copies and compares them, so they are modelled as
  \<open>real\<close>.
\<close>

record word_event =
  word :: string
  start :: real

type_synonym transcription = "word_event list list"

record raw_timestamp =
  Folder :: string
  starttime :: real

record timestamp = raw_timestamp +
  endtime :: real

text \<open>First pass: every word whose normalised text is in the keyword list, in order.\<close>

definition find_keywords :: "transcription \<Rightarrow> string list \<Rightarrow> raw_timestamp list" where
  "find_keywords tr keywords =
     concat (map (\<lambda>seg. concat (map (\<lambda>w.
        if normalize_word (word w) \<in> set keywords
        then [\<lparr>Folder = normalize_word (word w), starttime = start w\<rparr>]
        else []) seg)) tr)"

text \<open>\<open>raw_timestamps[0]['starttime'] = 0.0\<close>, reached only when the list is not empty.\<close>

definition force_first :: "raw_timestamp list \<Rightarrow> raw_timestamp list" where
  "force_first raw = raw[0 := (raw ! 0)\<lparr>starttime := 0\<rparr>]"

text \<open>The loop over \<open>range(len(raw_timestamps))\<close> that computes the end times.\<close>

definition calculate_end_times :: "raw_timestamp list \<Rightarrow> real \<Rightarrow> timestamp list" where
  "calculate_end_times raw audio_duration =
     map (\<lambda>i.
        \<lparr>Folder = Folder (raw ! i),
         starttime = starttime (raw ! i),
         endtime = (if i + 1 < length raw then starttime (raw ! (i + 1)) else audio_duration)\<rparr>)
       [0 ..< length raw]"

definition derive_segments :: "raw_timestamp list \<Rightarrow> real \<Rightarrow> timestamp list" where
  "derive_segments raw_timestamps audio_duration =
     (if raw_timestamps = [] then []
      else calculate_end_times (force_first raw_timestamps) audio_duration)"

definition process_audio_file :: "transcription \<Rightarrow> string list \<Rightarrow> real \<Rightarrow> timestamp list" where
  "process_audio_file tr keywords audio_duration =
     derive_segments (find_keywords tr keywords) audio_duration"

section \<open>ahmi.py\<close>

text \<open>The dictionary \<open>self.associations\<close> of \<open>AnimeVideoNamer\<close>.\<close>

definition associations :: "string \<rightharpoonup> string" where
  "associations = map_of
     [(''luffy'', ''onepiece''),
      (''naruto'', ''narutoshippuden''),
      (''saitama'', ''opm''),
      (''goku'', ''dbz''),
      (''ichigo'', ''bleach''),
      (''gojo'', ''jjk''),
      (''madara'', ''naruto''),
      (''sukuna'', ''jjk''),
      (''kakashi'', ''naruto''),
      (''vegeta'', ''dragonball'')]"

text \<open>
  The loop of \<open>create_title\<close> over the entries, with the list \<open>seen_folders\<close> and the
  set \<open>hashtags\<close> as its state. An entry is a dictionary with the key \<open>Folder\<close>; the
  other keys are not read.
\<close>

fun scan_entries :: "timestamp list \<Rightarrow> string list \<Rightarrow> string set \<Rightarrow> string list \<times> string set" where
  "scan_entries [] seen_folders hashtags = (seen_folders, hashtags)"
| "scan_entries (entry # entries) seen_folders hashtags =
     (let folder = lower (Folder entry)
      in if folder \<notin> set seen_folders
         then (case associations folder of
                 None \<Rightarrow> scan_entries entries (seen_folders @ [folder]) hashtags
               | Some assoc_word \<Rightarrow>
                   if assoc_word \<noteq> []
                   then scan_entries entries (seen_folders @ [folder])
                          (insert (''#'' @ assoc_word @ '' #'' @ folder) hashtags)
                   else scan_entries entries (seen_folders @ [folder]) hashtags)
         else scan_entries entries seen_folders hashtags)"

text \<open>
  \<open>sorted(hashtags)\<close> orders the elements of the set by code point, which is the
  lexicographic order of \<open>string\<close>.
\<close>

definition create_title :: "timestamp list \<Rightarrow> bool \<Rightarrow> string" where
  "create_title entries for_filename =
     (let (seen_folders, hashtags) = scan_entries entries [] {''#animebattle''};
          title_main = str_join '' vs '' seen_folders;
          hashtags_str = str_join '' '' (sorted_list_of_set hashtags);
          full_title = title_main @ '' '' @ hashtags_str
      in if for_filename
         then map (\<lambda>c. if c = CHR ''_'' then CHR ''#'' else c) full_title
         else full_title)"

section \<open>The environment of final.py and draft/segments.py\<close>

text \<open>
  Both scripts work on the file system, print to standard output and call the media
  engine. Exceptions are values of \<open>error\<close>; a statement that can raise returns
  \<open>error + 'a\<close> together with the world it leaves behind.
\<close>

text \<open>
  An argument of an engine command: a string, or a float rendered by \<open>str(duration)\<close>,
  whose decimal text is not modelled.
\<close>

datatype arg = Str string | Num real

datatype error =
    FileNotFoundError string
  | NotADirectoryError string
  | IsADirectoryError string
  | PermissionError string
  | ValueError string
  | IndexError
  | CalledProcessError "arg list" int
  | Exception string

text \<open>
  What a file holds: the lines of a text file, a media stream of some duration in
  seconds, or a JSON document holding a list of segments.
\<close>

datatype content = Text "string list" | Media real | Json "timestamp list"

text \<open>The lines the scripts print; the formatted numbers are kept as numbers.\<close>

datatype message =
    Processing_group string nat
  | Created_final_video string
  | Title string
  | All_videos_processed
  | No_segments_found
  | Processing_file string
  | Skipping_segment nat string error
  | Creating_segment nat string real string
  | All_segments_created
  | No_JSON_files_found
  | Error error

text \<open>
  \<open>dirs\<close> gives what \<open>os.listdir\<close> returns for each directory that exists, in the
  order of the operating system; \<open>files\<close> gives the content of each regular file;
  \<open>locked\<close> are the paths the operating system refuses to delete; \<open>ffmpeg_on_path\<close>
  is whether \<open>which("ffmpeg")\<close> finds the executable. The scripts list only directories
  that neither they nor the engine write to during a run, so a written file is recorded
  in \<open>files\<close> alone.
\<close>

record world =
  dirs :: "string \<rightharpoonup> string list"
  files :: "string \<rightharpoonup> content"
  locked :: "string set"
  ffmpeg_on_path :: bool
  stdout :: "message list"

type_synonym 'a action = "world \<Rightarrow> (error + 'a) \<times> world"

text \<open>Statement sequencing: an exception of the first statement skips the rest.\<close>

definition and_then :: "'a action \<Rightarrow> ('a \<Rightarrow> 'b action) \<Rightarrow> 'b action" where
  "and_then m f w = (case m w of (Inl e, w') \<Rightarrow> (Inl e, w') | (Inr x, w') \<Rightarrow> f x w')"

definition return :: "'a \<Rightarrow> 'a action" where
  "return x w = (Inr x, w)"

definition raise :: "error \<Rightarrow> 'a action" where
  "raise e w = (Inl e, w)"

text \<open>A pure computation that may raise, run as a statement.\<close>

definition lift :: "error + 'a \<Rightarrow> 'a action" where
  "lift r w = (r, w)"

definition print :: "message \<Rightarrow> unit action" where
  "print m w = (Inr (), w\<lparr>stdout := stdout w @ [m]\<rparr>)"

definition path_exists :: "world \<Rightarrow> string \<Rightarrow> bool" where
  "path_exists w p = (dirs w p \<noteq> None \<or> files w p \<noteq> None)"

definition listdir :: "string \<Rightarrow> string list action" where
  "listdir d w =
     (case dirs w d of
        Some names \<Rightarrow> (Inr names, w)
      | None \<Rightarrow>
          if files w d \<noteq> None then (Inl (NotADirectoryError d), w)
          else (Inl (FileNotFoundError d), w))"

text \<open>\<open>os.makedirs(d, exist_ok=True)\<close>\<close>

definition makedirs :: "string \<Rightarrow> unit action" where
  "makedirs d w =
     (if dirs w d = None then (Inr (), w\<lparr>dirs := (dirs w)(d \<mapsto> [])\<rparr>) else (Inr (), w))"

text \<open>
  \<open>with open(path, 'w') as f: ...\<close> writing the given lines; opening for writing is
  taken to succeed.
\<close>

definition write_lines :: "string \<Rightarrow> string list \<Rightarrow> unit action" where
  "write_lines p ls w = (Inr (), w\<lparr>files := (files w)(p \<mapsto> Text ls)\<rparr>)"

definition os_remove :: "string \<Rightarrow> unit action" where
  "os_remove p w =
     (if files w p = None
      then (if dirs w p \<noteq> None then (Inl (IsADirectoryError p), w)
            else (Inl (FileNotFoundError p), w))
      else if p \<in> locked w then (Inl (PermissionError p), w)
      else (Inr (), w\<lparr>files := (files w)(p := None)\<rparr>))"

text \<open>
  The media engine is external. An engine is any function from the command and the
  files it can read to its exit status and to what it leaves at its output path, the
  last argument of the command (\<open>None\<close>: it wrote nothing). The engine is a parameter
  of everything that calls it.
\<close>

type_synonym engine = "arg list \<Rightarrow> (string \<rightharpoonup> content) \<Rightarrow> int \<times> content option"

definition output_of :: "arg list \<Rightarrow> string" where
  "output_of cmd = (case last cmd of Str p \<Rightarrow> p | Num x \<Rightarrow> [])"

text \<open>\<open>subprocess.run(cmd, check=True)\<close>: a non-zero exit status raises.\<close>

definition subprocess_run :: "engine \<Rightarrow> arg list \<Rightarrow> unit action" where
  "subprocess_run eng cmd w =
     (let (status, written) = eng cmd (files w);
          w' = (case written of
                  None \<Rightarrow> w
                | Some c \<Rightarrow> w\<lparr>files := (files w)(output_of cmd \<mapsto> c)\<rparr>)
      in if status \<noteq> 0 then (Inl (CalledProcessError cmd status), w') else (Inr (), w'))"

subsection \<open>Reasoning about statements\<close>


section \<open>final.py\<close>

definition SEGMENTS_DIR :: string where "SEGMENTS_DIR = ''segments''"
definition AUDIO_DIR :: string where "AUDIO_DIR = ''audio''"
definition MUSIC_PATH :: string where "MUSIC_PATH = ''music/music.mp3''"
definition OUTPUT_DIR :: string where "OUTPUT_DIR = ''final_videos''"

definition validate_environment :: "unit action" where
  "validate_environment w =
     (if \<not> path_exists w SEGMENTS_DIR then (Inl (FileNotFoundError SEGMENTS_DIR), w)
      else if \<not> path_exists w AUDIO_DIR then (Inl (FileNotFoundError AUDIO_DIR), w)
      else if \<not> path_exists w MUSIC_PATH then (Inl (FileNotFoundError MUSIC_PATH), w)
      else makedirs OUTPUT_DIR w)"

text \<open>The part of a name before the first \<open>_segment_\<close>: \<open>f.split('_segment_')[0]\<close>.\<close>

definition base_of :: "string \<Rightarrow> string" where
  "base_of f = hd (str_split ''_segment_'' f)"

text \<open>The first entry of the audio directory that matches, in listing order.\<close>

definition get_audio_file :: "string \<Rightarrow> string action" where
  "get_audio_file segment_base =
     and_then (listdir AUDIO_DIR) (\<lambda>names.
       case filter (\<lambda>f. startswith f (base_of segment_base) \<and> endswith f ''.mp4'') names of
         f # _ \<Rightarrow> return (path_join AUDIO_DIR f)
       | [] \<Rightarrow> raise (FileNotFoundError segment_base))"

definition get_segment_entries :: "string list \<Rightarrow> timestamp list" where
  "get_segment_entries segment_group =
     concat (map (\<lambda>seg.
        let parts = str_split ''_'' seg
        in if 4 \<le> length parts
           then [\<lparr>Folder = str_replace ''.mp4'' '''' (parts ! 3), starttime = 0, endtime = 0\<rparr>]
           else []) segment_group)"

text \<open>
  \<open>int(s)\<close> on a string: surrounding whitespace, an optional sign and decimal digits
  (a piece of a name split at \<open>'_'\<close> holds no underscore). The whitespace \<open>int\<close>
  accepts is narrower than that of \<open>str.strip()\<close>: on the code points 0..255 it is
  9..13, 32, 133 and 160, without 28..31. The only decimal digits there are 0..9.
\<close>

definition is_int_space :: "char \<Rightarrow> bool" where
  "is_int_space c =
     (let n = (of_char c :: nat) in (9 \<le> n \<and> n \<le> 13) \<or> n = 32 \<or> n = 133 \<or> n = 160)"

definition digits_value :: "string \<Rightarrow> nat" where
  "digits_value ds = foldl (\<lambda>n c. 10 * n + (of_char c - 48)) 0 ds"

definition py_int :: "string \<Rightarrow> error + int" where
  "py_int s =
     (let t = rstrip_by is_int_space (lstrip_by is_int_space s);
          (negative, ds) =
            (case t of
               c # r \<Rightarrow> if c = CHR ''-'' then (True, r) else if c = CHR ''+'' then (False, r)
                        else (False, t)
             | [] \<Rightarrow> (False, t))
      in if ds \<noteq> [] \<and> list_all is_digit ds
         then Inr (if negative then - int (digits_value ds) else int (digits_value ds))
         else Inl (ValueError s))"

text \<open>The sort key \<open>int(x.split('_')[2])\<close>.\<close>

definition segment_index :: "string \<Rightarrow> error + int" where
  "segment_index x =
     (let parts = str_split ''_'' x
      in if length parts \<le> 2 then Inl IndexError else py_int (parts ! 2))"

text \<open>
  \<open>sorted(segment_group, key=...)\<close>: the keys are computed for every element first, in
  order, so the first element without a key raises; then the elements are sorted by key,
  equal keys staying in their order.
\<close>

fun with_keys :: "string list \<Rightarrow> error + (int \<times> string) list" where
  "with_keys [] = Inr []"
| "with_keys (x # xs) =
     (case segment_index x of
        Inl e \<Rightarrow> Inl e
      | Inr k \<Rightarrow> (case with_keys xs of Inl e \<Rightarrow> Inl e | Inr ks \<Rightarrow> Inr ((k, x) # ks)))"

definition sorted_segments :: "string list \<Rightarrow> error + string list" where
  "sorted_segments segment_group =
     (case with_keys segment_group of
        Inl e \<Rightarrow> Inl e
      | Inr ks \<Rightarrow> Inr (map snd (sort_key fst ks)))"

definition safe_char :: "char \<Rightarrow> char" where
  "safe_char c = (if isalnum c \<or> c \<in> set '' -_#'' then c else CHR ''_'')"

text \<open>A line \<open>file '<path>'\<close> of a concat list, with its newline.\<close>

definition concat_line :: "string \<Rightarrow> string" where
  "concat_line p = ''file '' @ [CHR 0x27] @ p @ [CHR 0x27, CHR 0x0A]"

definition concat_list :: string where "concat_list = ''temp_concat.txt''"
definition video_no_audio :: string where "video_no_audio = ''temp_video_no_audio.mp4''"
definition original_audio :: string where "original_audio = ''temp_original_audio.wav''"
definition bg_music :: string where "bg_music = ''temp_bg_music.wav''"
definition mixed_audio :: string where "mixed_audio = ''temp_mixed_audio.wav''"

definition concat_cmd :: "arg list" where
  "concat_cmd = map Str [''ffmpeg'', ''-y'', ''-f'', ''concat'', ''-safe'', ''0'',
     ''-i'', concat_list, ''-c:v'', ''libx264'', ''-r'', ''30'', ''-preset'', ''fast'',
     ''-crf'', ''23'', ''-an'', video_no_audio]"

definition audio_cmd :: "string \<Rightarrow> arg list" where
  "audio_cmd audio_file = map Str [''ffmpeg'', ''-y'', ''-i'', audio_file, ''-vn'',
     ''-acodec'', ''pcm_s16le'', original_audio]"

definition music_cmd :: "arg list" where
  "music_cmd = map Str [''ffmpeg'', ''-y'', ''-i'', MUSIC_PATH, ''-vn'',
     ''-filter:a'', ''volume=0.1'', ''-acodec'', ''pcm_s16le'', bg_music]"

definition mix_cmd :: "arg list" where
  "mix_cmd = map Str [''ffmpeg'', ''-y'', ''-i'', original_audio, ''-i'', bg_music,
     ''-filter_complex'', ''[0:a][1:a]amerge=inputs=2[aout]'', ''-map'', ''[aout]'',
     ''-ac'', ''2'', ''-c:a'', ''pcm_s16le'', mixed_audio]"

definition final_cmd :: "string \<Rightarrow> string \<Rightarrow> arg list" where
  "final_cmd title output_file = map Str [''ffmpeg'', ''-y'', ''-i'', video_no_audio,
     ''-i'', mixed_audio, ''-c:v'', ''copy'', ''-c:a'', ''aac'', ''-b:a'', ''192k'',
     ''-shortest'', ''-r'', ''30'', ''-metadata'', ''title='' @ title, output_file]"

text \<open>The loop \<open>for f in [...]: if os.path.exists(f): os.remove(f)\<close>.\<close>

fun cleanup :: "string list \<Rightarrow> unit action" where
  "cleanup [] w = (Inr (), w)"
| "cleanup (f # fs) w =
     (if path_exists w f
      then (case os_remove f w of (Inl e, w') \<Rightarrow> (Inl e, w') | (Inr u, w') \<Rightarrow> cleanup fs w')
      else cleanup fs w)"

definition temporary_files :: "string list" where
  "temporary_files = [concat_list, video_no_audio, original_audio, bg_music, mixed_audio]"

definition process_video_group :: "engine \<Rightarrow> string list \<Rightarrow> unit action" where
  "process_video_group eng segment_group =
     and_then (lift (case segment_group of [] \<Rightarrow> Inl IndexError | s # _ \<Rightarrow> Inr (base_of s)))
     (\<lambda>base_name.
       let entries = get_segment_entries segment_group;
           title = create_title entries True;
           safe_title = map safe_char title;
           output_file = path_join OUTPUT_DIR (safe_title @ ''.mp4'')
       in
     and_then (lift (sorted_segments segment_group)) (\<lambda>segments.
       let segment_files = map (path_join SEGMENTS_DIR) segments in
     and_then (get_audio_file base_name) (\<lambda>audio_file.
     and_then (write_lines concat_list (map concat_line segment_files)) (\<lambda>_.
     and_then (subprocess_run eng concat_cmd) (\<lambda>_.
     and_then (subprocess_run eng (audio_cmd audio_file)) (\<lambda>_.
     and_then (subprocess_run eng music_cmd) (\<lambda>_.
     and_then (subprocess_run eng mix_cmd) (\<lambda>_.
     and_then (subprocess_run eng (final_cmd title output_file)) (\<lambda>_.
     and_then (cleanup temporary_files) (\<lambda>_.
     and_then (print (Created_final_video output_file)) (\<lambda>_.
     print (Title title))))))))))))"

text \<open>
  The dictionary \<open>groups\<close> is an association list in insertion order, which is the
  order in which \<open>segment_groups.items()\<close> yields the groups.
\<close>

fun add_to_group :: "string \<Rightarrow> string \<Rightarrow> (string \<times> string list) list \<Rightarrow> (string \<times> string list) list" where
  "add_to_group base f [] = [(base, [f])]"
| "add_to_group base f ((b, fs) # groups) =
     (if b = base then (b, fs @ [f]) # groups else (b, fs) # add_to_group base f groups)"

definition group_names :: "string list \<Rightarrow> (string \<times> string list) list" where
  "group_names names =
     foldl (\<lambda>groups f. if endswith f ''.mp4'' then add_to_group (base_of f) f groups else groups)
       [] names"

definition group_segments :: "(string \<times> string list) list action" where
  "group_segments = and_then (listdir SEGMENTS_DIR) (\<lambda>names. return (group_names names))"

text \<open>The loop of \<open>main\<close> over the groups.\<close>

fun process_groups :: "engine \<Rightarrow> (string \<times> string list) list \<Rightarrow> unit action" where
  "process_groups eng [] w = (Inr (), w)"
| "process_groups eng ((base_name, segments) # groups) w =
     (case and_then (print (Processing_group base_name (length segments)))
             (\<lambda>_. process_video_group eng segments) w of
        (Inl e, w') \<Rightarrow> (Inl e, w')
      | (Inr u, w') \<Rightarrow> process_groups eng groups w')"

definition main_body :: "engine \<Rightarrow> unit action" where
  "main_body eng =
     and_then validate_environment (\<lambda>_.
     and_then (\<lambda>w. if ffmpeg_on_path w then (Inr (), w)
                    else (Inl (Exception ''ffmpeg is not installed''), w)) (\<lambda>_.
     and_then group_segments (\<lambda>segment_groups.
       if segment_groups = [] then print No_segments_found
       else and_then (process_groups eng segment_groups) (\<lambda>_. print All_videos_processed))))"

text \<open>\<open>main\<close>: the body inside \<open>try\<close>, and the handler that prints the exception.\<close>

definition main :: "engine \<Rightarrow> world \<Rightarrow> world" where
  "main eng w =
     (case main_body eng w of
        (Inl e, w') \<Rightarrow> w'\<lparr>stdout := stdout w' @ [Error e]\<rparr>
      | (Inr u, w') \<Rightarrow> w')"






section \<open>draft/segments.py\<close>

text \<open>
  The script has its own \<open>validate_environment\<close> and \<open>main\<close>; here they carry the
  suffix \<open>_draft\<close>. Its \<open>SEGMENTS_DIR\<close> is the directory final.py reads.
\<close>

definition CLIPS_DIR :: string where "CLIPS_DIR = ''clips''"
definition TRANSCRIPTIONS_DIR :: string where "TRANSCRIPTIONS_DIR = ''temp_transcriptions''"

definition validate_environment_draft :: "unit action" where
  "validate_environment_draft w =
     (if \<not> path_exists w CLIPS_DIR then (Inl (FileNotFoundError CLIPS_DIR), w)
      else if \<not> path_exists w TRANSCRIPTIONS_DIR then (Inl (FileNotFoundError TRANSCRIPTIONS_DIR), w)
      else makedirs SEGMENTS_DIR w)"

definition get_clips_for_keyword :: "string \<Rightarrow> string list action" where
  "get_clips_for_keyword keyword =
     (let keyword_dir = path_join CLIPS_DIR keyword
      in and_then (\<lambda>w. if \<not> path_exists w keyword_dir
                        then (Inl (FileNotFoundError keyword), w) else (Inr (), w)) (\<lambda>_.
         and_then (listdir keyword_dir) (\<lambda>names.
           let clips = map (path_join keyword_dir)
                         (filter (\<lambda>f. endswith (lower f) ''.mp4'') names)
           in if clips = [] then raise (ValueError keyword_dir) else return clips)))"

definition list_file :: string where "list_file = ''temp_clips.txt''"
definition temp_output :: string where "temp_output = ''temp_concat.mp4''"

definition copy_concat_cmd :: "arg list" where
  "copy_concat_cmd = map Str [''ffmpeg'', ''-y'', ''-f'', ''concat'', ''-safe'', ''0'',
     ''-i'', list_file, ''-c'', ''copy'', temp_output]"

definition trim_cmd :: "real \<Rightarrow> string \<Rightarrow> arg list" where
  "trim_cmd duration output_path =
     [Str ''ffmpeg'', Str ''-y'', Str ''-i'', Str temp_output, Str ''-t'', Num duration,
      Str ''-c'', Str ''copy'', Str output_path]"

definition create_segment :: "engine \<Rightarrow> string list \<Rightarrow> real \<Rightarrow> string \<Rightarrow> unit action" where
  "create_segment eng clips duration output_path =
     and_then (write_lines list_file (map concat_line clips)) (\<lambda>_.
     and_then (subprocess_run eng copy_concat_cmd) (\<lambda>_.
     and_then (subprocess_run eng (trim_cmd duration output_path)) (\<lambda>_.
     and_then (os_remove list_file) (\<lambda>_.
     os_remove temp_output))))"

text \<open>\<open>str(i)\<close> for the index of \<open>enumerate\<close>.\<close>

fun str_nat :: "nat \<Rightarrow> string" where
  "str_nat n =
     (if n < 10 then [char_of (48 + n)] else str_nat (n div 10) @ [char_of (48 + n mod 10)])"

declare str_nat.simps [simp del]

text \<open>
  A segment unit as \<open>process_segments\<close> produces it: the recording it belongs to, its
  index in the timeline and its keyword. \<open>unit_name\<close> is the file name the unit is
  stored under, \<open>f"{base_name}_segment_{i}_{keyword}.mp4"\<close>, which is all final.py
  sees of it.
\<close>

record segment_unit =
  recordingId :: string
  segmentIndex :: nat
  keyword :: string

definition unit_name :: "segment_unit \<Rightarrow> string" where
  "unit_name u =
     recordingId u @ ''_segment_'' @ str_nat (segmentIndex u) @ ''_'' @ keyword u @ ''.mp4''"

text \<open>\<open>json.load\<close> of the file at a path: a file that holds no JSON raises a \<open>ValueError\<close>.\<close>

definition load_json :: "string \<Rightarrow> timestamp list action" where
  "load_json p w =
     (case files w p of
        None \<Rightarrow> (Inl (FileNotFoundError p), w)
      | Some (Json segments_data) \<Rightarrow> (Inr segments_data, w)
      | Some _ \<Rightarrow> (Inl (ValueError p), w))"

text \<open>
  The body of the loop of \<open>process_segments\<close> for the segment at index \<open>i\<close>. Only
  the clip lookup is inside \<open>try\<close>; its handler prints and goes on to the next
  segment (\<open>continue\<close>), so the body then ends normally.
\<close>

definition assemble_one :: "engine \<Rightarrow> string \<Rightarrow> nat \<Rightarrow> timestamp \<Rightarrow> unit action" where
  "assemble_one eng base_name i segment w =
     (let keyword = Folder segment;
          duration = endtime segment - starttime segment
      in case get_clips_for_keyword keyword w of
           (Inl e, w1) \<Rightarrow> print (Skipping_segment i base_name e) w1
         | (Inr clips, w1) \<Rightarrow>
             (let output_file = path_join SEGMENTS_DIR
                    (base_name @ ''_segment_'' @ str_nat i @ ''_'' @ keyword @ ''.mp4'')
              in and_then (print (Creating_segment i base_name duration keyword))
                   (\<lambda>_. create_segment eng clips duration output_file) w1))"

text \<open>The loop over \<open>enumerate(segments_data)\<close>, from index \<open>i\<close>.\<close>

fun segments_loop :: "engine \<Rightarrow> string \<Rightarrow> nat \<Rightarrow> timestamp list \<Rightarrow> unit action" where
  "segments_loop eng base_name i [] w = (Inr (), w)"
| "segments_loop eng base_name i (segment # rest) w =
     (case assemble_one eng base_name i segment w of
        (Inl e, w') \<Rightarrow> (Inl e, w')
      | (Inr u, w') \<Rightarrow> segments_loop eng base_name (i + 1) rest w')"

definition process_segments :: "engine \<Rightarrow> string \<Rightarrow> unit action" where
  "process_segments eng json_path =
     (let base_name = str_replace ''_segments'' '''' (splitext_root (basename json_path))
      in and_then (load_json json_path) (\<lambda>segments_data.
           segments_loop eng base_name 0 segments_data))"

fun process_files :: "engine \<Rightarrow> string list \<Rightarrow> unit action" where
  "process_files eng [] w = (Inr (), w)"
| "process_files eng (json_file # json_files) w =
     (case and_then (print (Processing_file json_file))
             (\<lambda>_. process_segments eng json_file) w of
        (Inl e, w') \<Rightarrow> (Inl e, w')
      | (Inr u, w') \<Rightarrow> process_files eng json_files w')"

definition main_body_draft :: "engine \<Rightarrow> unit action" where
  "main_body_draft eng =
     and_then validate_environment_draft (\<lambda>_.
     and_then (listdir TRANSCRIPTIONS_DIR) (\<lambda>names.
       let json_files = map (path_join TRANSCRIPTIONS_DIR)
                          (filter (\<lambda>f. endswith f ''.json'') names)
       in if json_files = [] then print No_JSON_files_found
          else and_then (process_files eng json_files) (\<lambda>_. print All_segments_created)))"

definition main_draft :: "engine \<Rightarrow> world \<Rightarrow> world" where
  "main_draft eng w =
     (case main_body_draft eng w of
        (Inl e, w') \<Rightarrow> w'\<lparr>stdout := stdout w' @ [Error e]\<rparr>
      | (Inr u, w') \<Rightarrow> w')"

section \<open>Concrete inputs\<close>

text \<open>
  A transcription in which "Luffy" is heard at 2.0 s and "Naruto" at 10.0 s, with a
  word in between that is no keyword.
\<close>

definition sample_transcription :: transcription where
  "sample_transcription =
     [[\<lparr>word = '' Luffy,'', start = 2\<rparr>, \<lparr>word = '' and'', start = 3\<rparr>],
      [\<lparr>word = '' Naruto!'', start = 10\<rparr>]]"

definition sample_keywords :: "string list" where
  "sample_keywords = [''luffy'', ''naruto'']"

text \<open>The entries of a recording that mentions Luffy and then Goku.\<close>

definition luffy_goku :: "timestamp list" where
  "luffy_goku =
     [\<lparr>Folder = ''luffy'', starttime = 0, endtime = 0\<rparr>,
      \<lparr>Folder = ''goku'', starttime = 0, endtime = 0\<rparr>]"

text \<open>
  An engine that exits with status 1, writing nothing, on every command that names the
  given path, and otherwise exits with 0 and leaves a media file at its output path.
\<close>

definition engine_rejecting :: "string \<Rightarrow> engine" where
  "engine_rejecting p cmd fs = (if Str p \<in> set cmd then (1, None) else (0, Some (Media 0)))"

text \<open>
  An engine that copies streams as the two commands of \<open>create_segment\<close> ask: the
  concatenation lasts as long as the listed clips together, and \<open>-t d\<close> keeps at most
  the first \<open>d\<close> seconds. Anything it cannot read makes it exit with status 1.
\<close>

definition clip_of_line :: "string \<Rightarrow> string" where
  "clip_of_line l = drop 6 (take (length l - 2) l)"

definition media_duration :: "(string \<rightharpoonup> content) \<Rightarrow> string \<Rightarrow> real option" where
  "media_duration fs p = (case fs p of Some (Media d) \<Rightarrow> Some d | _ \<Rightarrow> None)"

definition stream_copy_engine :: engine where
  "stream_copy_engine cmd fs =
     (if cmd = copy_concat_cmd
      then (case fs list_file of
              Some (Text ls) \<Rightarrow>
                (let ds = map (\<lambda>l. media_duration fs (clip_of_line l)) ls
                 in if None \<in> set ds then (1, None)
                    else (0, Some (Media (sum_list (map the ds)))))
            | _ \<Rightarrow> (1, None))
      else if length cmd = 9 \<and> take 5 cmd = map Str [''ffmpeg'', ''-y'', ''-i'', temp_output, ''-t'']
      then (case (cmd ! 5, media_duration fs temp_output) of
              (Num d, Some t) \<Rightarrow> if d < 0 then (1, None) else (0, Some (Media (min t d)))
            | _ \<Rightarrow> (1, None))
      else (1, None))"

text \<open>
  Two recordings, \<open>a\<close> and \<open>b\<close>, with one segment unit each, their narration and the
  music file.
\<close>

definition two_recordings :: world where
  "two_recordings =
     \<lparr>dirs = [''segments'' \<mapsto> [''a_segment_0_luffy.mp4'', ''b_segment_0_goku.mp4''],
              ''audio'' \<mapsto> [''a.mp4'', ''b.mp4'']],
      files = [''music/music.mp3'' \<mapsto> Media 60,
               ''audio/a.mp4'' \<mapsto> Media 15,
               ''audio/b.mp4'' \<mapsto> Media 15],
      locked = {},
      ffmpeg_on_path = True,
      stdout = []\<rparr>"

text \<open>
  A clip library with two one-second clips for \<open>luffy\<close> and a twenty-second clip for
  \<open>naruto\<close>, and the timelines of two recordings: \<open>rec\<close> with \<open>luffy\<close> from 0 to
  10 and \<open>naruto\<close> from 10 to 15, and \<open>rec2\<close> with \<open>naruto\<close> from 0 to 5.
\<close>

definition clip_library :: world where
  "clip_library =
     \<lparr>dirs = [''clips'' \<mapsto> [''luffy'', ''naruto''],
              ''clips/luffy'' \<mapsto> [''l1.mp4'', ''l2.mp4''],
              ''clips/naruto'' \<mapsto> [''n1.mp4''],
              ''temp_transcriptions'' \<mapsto> [''rec_segments.json'', ''rec2_segments.json'']],
      files = [''clips/luffy/l1.mp4'' \<mapsto> Media 1,
               ''clips/luffy/l2.mp4'' \<mapsto> Media 1,
               ''clips/naruto/n1.mp4'' \<mapsto> Media 20,
               ''temp_transcriptions/rec_segments.json'' \<mapsto>
                  Json [\<lparr>Folder = ''luffy'', starttime = 0, endtime = 10\<rparr>,
                        \<lparr>Folder = ''naruto'', starttime = 10, endtime = 15\<rparr>],
               ''temp_transcriptions/rec2_segments.json'' \<mapsto>
                  Json [\<lparr>Folder = ''naruto'', starttime = 0, endtime = 5\<rparr>]],
      locked = {},
      ffmpeg_on_path = True,
      stdout = []\<rparr>"

text \<open>The same library with the folder of \<open>luffy\<close> missing.\<close>

definition clip_library_without_luffy :: world where
  "clip_library_without_luffy = clip_library\<lparr>dirs := (dirs clip_library)(''clips/luffy'' := None)\<rparr>"

text \<open>The same library with a first clip of \<open>luffy\<close> that is no media file.\<close>

definition clip_library_broken_luffy :: world where
  "clip_library_broken_luffy =
     clip_library\<lparr>files := (files clip_library)(''clips/luffy/l1.mp4'' \<mapsto> Text [])\<rparr>"

definition luffy_segment :: timestamp where
  "luffy_segment = \<lparr>Folder = ''luffy'', starttime = 0, endtime = 10\<rparr>"

definition naruto_segment :: timestamp where
  "naruto_segment = \<lparr>Folder = ''naruto'', starttime = 10, endtime = 15\<rparr>"

section \<open>Properties of audio.py\<close>

subsection \<open>Word normalisation\<close>

lemma dropWhile_id: "xs = [] \<or> \<not> P (hd xs) \<Longrightarrow> dropWhile P xs = xs"
  by (cases xs) auto

lemma rstrip_by_id: "xs = [] \<or> \<not> P (last xs) \<Longrightarrow> rstrip_by P xs = xs"
  unfolding rstrip_by_def
  by (cases "xs = []") (simp_all add: dropWhile_id hd_rev)

lemma last_rstrip_by: "rstrip_by P xs = [] \<or> \<not> P (last (rstrip_by P xs))"
proof -
  let ?d = "dropWhile P (rev xs)"
  have "?d = [] \<or> \<not> P (hd ?d)" using hd_dropWhile [of P "rev xs"] by blast
  then show ?thesis
    unfolding rstrip_by_def by (auto simp: last_rev)
qed

lemma rstrip_by_prefix: "\<exists>zs. xs = rstrip_by P xs @ zs"
proof -
  have "xs = rev (dropWhile P (rev xs)) @ rev (takeWhile P (rev xs))"
    by (metis rev_append rev_rev_ident takeWhile_dropWhile_id)
  then show ?thesis unfolding rstrip_by_def by blast
qed

lemma hd_rstrip_by:
  assumes "rstrip_by P xs \<noteq> []"
  shows "hd (rstrip_by P xs) = hd xs"
proof -
  obtain zs where "xs = rstrip_by P xs @ zs" using rstrip_by_prefix by blast
  then have "hd xs = hd (rstrip_by P xs @ zs)" by simp
  with assms show ?thesis by simp
qed

lemma is_space_lower_char: "is_space (lower_char c) = is_space c"
  by (auto simp: is_space_def lower_char_def Let_def)

lemma is_punctuation_lower_char: "is_punctuation (lower_char c) = is_punctuation c"
  by (auto simp: is_punctuation_def lower_char_def Let_def)

lemma lower_char_idem: "lower_char (lower_char c) = lower_char c"
  by (auto simp: lower_char_def Let_def)

lemma lower_idem: "lower (lower s) = lower s"
  by (simp add: lower_def lower_char_idem)

lemma hd_strip_not_space: "strip w = [] \<or> \<not> is_space (hd (strip w))"
proof (cases "strip w = []")
  case False
  then have "hd (strip w) = hd (dropWhile is_space w)"
    unfolding strip_def lstrip_by_def by (rule hd_rstrip_by)
  moreover have "dropWhile is_space w \<noteq> []"
  proof
    assume "dropWhile is_space w = []"
    then have "strip w = rstrip_by is_space []" by (simp only: strip_def lstrip_by_def)
    then have "strip w = []" by (simp add: rstrip_by_def)
    with False show False by simp
  qed
  ultimately show ?thesis using hd_dropWhile [of is_space w] by simp
qed simp

text \<open>
  C10 (as stated): normalising twice gives the same as normalising once, for every word.
  This fails: stripping the trailing punctuation can uncover whitespace, which only the
  second pass strips. On \<open>"a ."\<close> the first pass gives \<open>"a "\<close> and the second \<open>"a"\<close>.
\<close>

theorem normalize_word_not_idempotent:
  "normalize_word ''a .'' = ''a '' \<and> normalize_word (normalize_word ''a .'') = ''a''"
  by code_simp

text \<open>
  C10 (amended): for every word whose normalised form does not end in a whitespace
  character, normalising that form again leaves it unchanged.
\<close>

theorem normalize_word_idempotent_when_trimmed:
  assumes "v = normalize_word w" and "v = [] \<or> \<not> is_space (last v)"
  shows "normalize_word v = v"
proof (cases "v = []")
  case True
  then show ?thesis
    by (simp add: normalize_word_def strip_def lstrip_by_def rstrip_by_def lower_def)
next
  case False
  define u where "u = rstrip_by is_punctuation (strip w)"
  have v: "v = lower u" using assms(1) by (simp add: normalize_word_def u_def)
  with False have une: "u \<noteq> []" by (auto simp: lower_def)
  have "\<not> is_punctuation (last u)"
    using last_rstrip_by [of is_punctuation "strip w"] une by (simp add: u_def)
  then have np: "\<not> is_punctuation (last v)"
    using une by (simp add: v lower_def last_map is_punctuation_lower_char)
  have "strip w \<noteq> []" using une by (auto simp: u_def rstrip_by_def)
  then have "\<not> is_space (hd (strip w))" using hd_strip_not_space [of w] by simp
  then have "\<not> is_space (hd u)" using une by (simp add: u_def hd_rstrip_by)
  then have ns: "\<not> is_space (hd v)"
    using une by (simp add: v lower_def hd_map is_space_lower_char)
  have ls: "\<not> is_space (last v)" using assms(2) False by simp
  have "strip v = v"
    unfolding strip_def lstrip_by_def using ns ls by (simp add: dropWhile_id rstrip_by_id)
  moreover have "rstrip_by is_punctuation v = v" using np by (simp add: rstrip_by_id)
  moreover have "lower v = v" by (simp add: v lower_idem)
  ultimately show ?thesis by (simp add: normalize_word_def)
qed

theorem normalize_word_idempotent_when_trimmed_witness:
  "''luffy'' = normalize_word '' Luffy, '' \<and> \<not> is_space (last ''luffy'')
   \<and> normalize_word ''luffy'' = ''luffy''"
  using normalize_word_idempotent_when_trimmed [of "''luffy''" "'' Luffy, ''"]
  by code_simp

subsection \<open>Segment derivation\<close>

lemma length_derive_segments: "length (derive_segments raw d) = length raw"
  by (simp add: derive_segments_def calculate_end_times_def force_first_def)

lemma nth_derive_segments:
  assumes "i < length raw"
  shows "derive_segments raw d ! i =
           \<lparr>Folder = Folder (raw ! i),
            starttime = (if i = 0 then 0 else starttime (raw ! i)),
            endtime = (if i + 1 < length raw then starttime (raw ! (i + 1)) else d)\<rparr>"
proof -
  from assms have ne: "raw \<noteq> []" by auto
  show ?thesis
  proof (cases "i = 0")
    case True
    with assms ne show ?thesis
      by (simp add: derive_segments_def calculate_end_times_def force_first_def)
  next
    case False
    with assms ne show ?thesis
      by (simp add: derive_segments_def calculate_end_times_def force_first_def)
  qed
qed

lemma last_derive_segments_nth:
  assumes "raw \<noteq> []"
  shows "last (derive_segments raw d) = derive_segments raw d ! (length raw - 1)"
proof -
  have "derive_segments raw d \<noteq> []"
    using assms length_derive_segments [of raw d] by auto
  then show ?thesis by (simp add: last_conv_nth length_derive_segments)
qed

lemma last_derive_segments:
  assumes "raw \<noteq> []"
  shows "endtime (last (derive_segments raw d)) = d"
proof -
  from assms have n: "length raw - 1 < length raw" by simp
  have "\<not> (length raw - 1 + 1 < length raw)" by simp
  then show ?thesis
    using nth_derive_segments [OF n, of d] last_derive_segments_nth [OF assms, of d] by simp
qed

lemma Folder_derive_segments: "map Folder (derive_segments raw d) = map Folder raw"
  by (rule nth_equalityI) (simp_all add: length_derive_segments nth_derive_segments)

lemma find_keywords_sample:
  "find_keywords sample_transcription sample_keywords =
     [\<lparr>Folder = ''luffy'', starttime = 2\<rparr>, \<lparr>Folder = ''naruto'', starttime = 10\<rparr>]"
  by code_simp

lemma process_audio_file_sample:
  "process_audio_file sample_transcription sample_keywords d =
     [\<lparr>Folder = ''luffy'', starttime = 0, endtime = 10\<rparr>,
      \<lparr>Folder = ''naruto'', starttime = 10, endtime = d\<rparr>]"
  by (simp add: process_audio_file_def find_keywords_sample derive_segments_def
      calculate_end_times_def force_first_def upt_rec)

text \<open>
  C5: whenever segment derivation returns a non-empty list, the list is contiguous: each
  segment's end time is the next segment's start time, and the last segment's end time
  is the total duration.
\<close>

theorem segments_contiguous:
  assumes "segs = process_audio_file tr keywords duration"
  shows "(\<forall>i. Suc i < length segs \<longrightarrow> endtime (segs ! i) = starttime (segs ! Suc i))
         \<and> (segs \<noteq> [] \<longrightarrow> endtime (last segs) = duration)"
proof (intro conjI allI impI)
  fix i assume "Suc i < length segs"
  then have "Suc i < length (find_keywords tr keywords)"
    using assms by (simp add: process_audio_file_def length_derive_segments)
  then show "endtime (segs ! i) = starttime (segs ! Suc i)"
    using assms by (simp add: process_audio_file_def nth_derive_segments)
next
  assume "segs \<noteq> []"
  then have "find_keywords tr keywords \<noteq> []"
    using assms by (auto simp: process_audio_file_def derive_segments_def)
  then show "endtime (last segs) = duration"
    using assms by (simp add: process_audio_file_def last_derive_segments)
qed

theorem segments_contiguous_witness:
  "process_audio_file sample_transcription sample_keywords 15 \<noteq> []
   \<and> Suc 0 < length (process_audio_file sample_transcription sample_keywords 15)
   \<and> endtime (process_audio_file sample_transcription sample_keywords 15 ! 0)
       = starttime (process_audio_file sample_transcription sample_keywords 15 ! Suc 0)
   \<and> endtime (last (process_audio_file sample_transcription sample_keywords 15)) = 15"
  using segments_contiguous
    [of "process_audio_file sample_transcription sample_keywords 15"
        sample_transcription sample_keywords 15]
  by (simp add: process_audio_file_sample)

text \<open>
  C6: for every non-empty list of keyword events, the first derived segment starts at
  exactly 0.0 whatever the first event's timestamp was, and there is one segment per
  event, in the order of the events and with their keywords.
\<close>

theorem first_segment_starts_at_zero:
  assumes "events = find_keywords tr keywords" and "events \<noteq> []"
      and "segs = process_audio_file tr keywords duration"
  shows "starttime (hd segs) = 0 \<and> length segs = length events
         \<and> map Folder segs = map Folder events"
proof -
  have segs: "segs = derive_segments events duration"
    using assms by (simp add: process_audio_file_def)
  have "0 < length events" using assms(2) by simp
  then have "starttime (segs ! 0) = 0"
    unfolding segs by (simp add: nth_derive_segments)
  moreover have "segs \<noteq> []"
    using assms(2) length_derive_segments [of events duration] segs by auto
  ultimately have "starttime (hd segs) = 0" by (simp add: hd_conv_nth)
  then show ?thesis
    by (simp add: segs length_derive_segments Folder_derive_segments)
qed

theorem first_segment_starts_at_zero_witness:
  "find_keywords sample_transcription sample_keywords \<noteq> []
   \<and> starttime (hd (find_keywords sample_transcription sample_keywords)) = 2
   \<and> starttime (hd (process_audio_file sample_transcription sample_keywords 15)) = 0
   \<and> map Folder (process_audio_file sample_transcription sample_keywords 15)
       = [''luffy'', ''naruto'']"
  using first_segment_starts_at_zero
    [of "find_keywords sample_transcription sample_keywords"
        sample_transcription sample_keywords
        "process_audio_file sample_transcription sample_keywords 15" 15]
  by (simp add: find_keywords_sample)

text \<open>
  C2 (as stated): when the last event starts after the total duration, derivation fails
  with a duration error. The code has no such check: with the events at 2.0 and 10.0 and
  a total duration of 5.0 it returns both segments, the last one running from 10.0 to
  5.0.
\<close>

theorem late_last_event_accepted:
  "5 < starttime (last (find_keywords sample_transcription sample_keywords))
   \<and> process_audio_file sample_transcription sample_keywords 5 =
       [\<lparr>Folder = ''luffy'', starttime = 0, endtime = 10\<rparr>,
        \<lparr>Folder = ''naruto'', starttime = 10, endtime = 5\<rparr>]"
  by (simp add: find_keywords_sample process_audio_file_sample)

text \<open>
  C2 (amended): for every non-empty event list whose last event starts after the total
  duration, derivation returns one segment per event; the last segment's end time is the
  total duration, unclamped, so with two or more events the last segment has negative
  duration. No error is raised.
\<close>

theorem late_last_event_gives_negative_segment:
  assumes "events = find_keywords tr keywords" and "events \<noteq> []"
      and "duration < starttime (last events)"
      and "segs = process_audio_file tr keywords duration"
  shows "length segs = length events \<and> endtime (last segs) = duration
         \<and> (2 \<le> length events \<longrightarrow> endtime (last segs) < starttime (last segs))"
proof -
  have segs: "segs = derive_segments events duration"
    using assms by (simp add: process_audio_file_def)
  have len: "length segs = length events" by (simp add: segs length_derive_segments)
  have e: "endtime (last segs) = duration"
    using assms(2) by (simp add: segs last_derive_segments)
  have "starttime (last segs) = starttime (last events)" if "2 \<le> length events"
  proof -
    from that have n: "length events - 1 < length events" "length events - 1 \<noteq> 0" by auto
    then show ?thesis
      by (simp add: segs nth_derive_segments last_derive_segments_nth [OF assms(2)]
          last_conv_nth assms(2))
  qed
  with e assms(3) len show ?thesis by simp
qed

theorem late_last_event_gives_negative_segment_witness:
  "find_keywords sample_transcription sample_keywords \<noteq> []
   \<and> 5 < starttime (last (find_keywords sample_transcription sample_keywords))
   \<and> 2 \<le> length (find_keywords sample_transcription sample_keywords)
   \<and> endtime (last (process_audio_file sample_transcription sample_keywords 5)) = 5
   \<and> endtime (last (process_audio_file sample_transcription sample_keywords 5))
       < starttime (last (process_audio_file sample_transcription sample_keywords 5))"
  using late_last_event_gives_negative_segment
    [of "find_keywords sample_transcription sample_keywords"
        sample_transcription sample_keywords 5
        "process_audio_file sample_transcription sample_keywords 5"]
  by (simp add: find_keywords_sample process_audio_file_sample)

section \<open>Properties of ahmi.py\<close>

text \<open>
  C9 (as stated): on the keywords luffy, goku the title is "luffy vs goku" followed by
  the five tags, space-joined in lexicographic order of the individual tags. The tags
  after the main title are not in that order: \<open>#onepiece\<close> comes before \<open>#luffy\<close>.
\<close>

theorem title_tags_not_sorted_individually:
  "drop 3 (str_split '' '' (create_title luffy_goku False))
     = [''#animebattle'', ''#dbz'', ''#goku'', ''#onepiece'', ''#luffy'']
   \<and> \<not> sorted (drop 3 (str_split '' '' (create_title luffy_goku False)))"
  by code_simp

text \<open>
  C9 (amended): on the keywords luffy, goku the title is "luffy vs goku" followed by
  \<open>#animebattle\<close> and, for each keyword, the pair "#category #keyword" as one unit; the
  units are space-joined in lexicographic order of the units, which gives
  \<open>#animebattle #dbz #goku #onepiece #luffy\<close>.
\<close>

theorem title_luffy_goku:
  "create_title luffy_goku False = ''luffy vs goku #animebattle #dbz #goku #onepiece #luffy''"
  by code_simp

section \<open>Properties of final.py\<close>

subsection \<open>Ordering a group\<close>

lemma insort_key_paired:
  "insort_key fst (k a, n a) (map (\<lambda>x. (k x, n x)) xs) = map (\<lambda>x. (k x, n x)) (insort_key k a xs)"
  by (induction xs) simp_all

lemma sort_key_paired:
  "sort_key fst (map (\<lambda>x. (k x, n x)) xs) = map (\<lambda>x. (k x, n x)) (sort_key k xs)"
proof (induction xs)
  case Nil
  show ?case by simp
next
  case (Cons a xs)
  have "sort_key fst (map (\<lambda>x. (k x, n x)) (a # xs))
          = insort_key fst (k a, n a) (sort_key fst (map (\<lambda>x. (k x, n x)) xs))"
    by simp
  also have "\<dots> = insort_key fst (k a, n a) (map (\<lambda>x. (k x, n x)) (sort_key k xs))"
    by (simp only: Cons.IH)
  also have "\<dots> = map (\<lambda>x. (k x, n x)) (insort_key k a (sort_key k xs))"
    by (rule insort_key_paired)
  finally show ?case by simp
qed

lemma insort_key_int:
  "insort_key (\<lambda>u. int (f u)) a xs = insort_key f a xs"
  by (induction xs) simp_all

lemma sort_key_int: "sort_key (\<lambda>u. int (f u)) xs = sort_key f xs"
  by (induction xs) (simp_all add: insort_key_int)

lemma str_split_from_piece:
  "CHR ''_'' \<notin> set a \<Longrightarrow>
     str_split_from ''_'' cur (a @ CHR ''_'' # rest) = (cur @ a) # str_split_from ''_'' [] rest"
  by (induction a arbitrary: cur) auto

lemma str_split_from_nonempty: "str_split_from sep cur s \<noteq> []"
  by (induction sep cur s rule: str_split_from.induct) simp_all

lemma is_digit_char_of: "(k::nat) < 10 \<Longrightarrow> is_digit (char_of (48 + k))"
  by (simp add: is_digit_def Let_def)

lemma digits_str_nat: "list_all is_digit (str_nat n) \<and> str_nat n \<noteq> []"
proof (induction n rule: str_nat.induct)
  case (1 n)
  show ?case
  proof (cases "n < 10")
    case True
    then show ?thesis by (subst str_nat.simps, subst str_nat.simps) (simp add: is_digit_char_of)
  next
    case False
    have "n mod 10 < 10" by simp
    then have "is_digit (char_of (48 + n mod 10))" by (rule is_digit_char_of)
    with False 1 show ?thesis
      by (subst str_nat.simps, subst str_nat.simps) simp
  qed
qed

lemma digits_value_snoc: "digits_value (ds @ [c]) = 10 * digits_value ds + (of_char c - 48)"
  by (simp add: digits_value_def)

lemma digits_value_str_nat: "digits_value (str_nat n) = n"
proof (induction n rule: str_nat.induct)
  case (1 n)
  show ?case
  proof (cases "n < 10")
    case True
    then show ?thesis by (subst str_nat.simps) (simp add: digits_value_def)
  next
    case False
    have "of_char (char_of (48 + n mod 10)) = 48 + n mod 10"
      by (simp add: mod_less)
    with False 1 show ?thesis
      by (subst str_nat.simps) (simp add: digits_value_snoc)
  qed
qed

lemma is_digit_plain:
  "is_digit c \<Longrightarrow> \<not> is_int_space c \<and> c \<noteq> CHR ''-'' \<and> c \<noteq> CHR ''+'' \<and> c \<noteq> CHR ''_''"
  by (auto simp: is_digit_def is_int_space_def Let_def)

lemma py_int_str_nat: "py_int (str_nat n) = Inr (int n)"
proof -
  let ?s = "str_nat n"
  from digits_str_nat [of n] have d: "list_all is_digit ?s" and ne: "?s \<noteq> []" by simp_all
  from d ne have "is_digit (hd ?s)" "is_digit (last ?s)"
    by (simp_all add: list_all_iff)
  then have h: "\<not> is_int_space (hd ?s)" "\<not> is_int_space (last ?s)"
    "hd ?s \<noteq> CHR ''-''" "hd ?s \<noteq> CHR ''+''"
    by (simp_all add: is_digit_plain)
  then have t: "rstrip_by is_int_space (lstrip_by is_int_space ?s) = ?s"
    by (simp add: lstrip_by_def dropWhile_id rstrip_by_id)
  have sign: "(case ?s of
                 c # r \<Rightarrow> if c = CHR ''-'' then (True, r) else if c = CHR ''+'' then (False, r)
                          else (False, ?s)
               | [] \<Rightarrow> (False, ?s)) = (False, ?s)"
    using h(3,4) ne by (cases ?s) simp_all
  show ?thesis
    by (simp add: py_int_def t sign d ne digits_value_str_nat)
qed

lemma underscore_free_str_nat: "CHR ''_'' \<notin> set (str_nat n)"
  using digits_str_nat [of n] is_digit_plain by (auto simp: list_all_iff)

lemma str_split_unit_name:
  assumes "CHR ''_'' \<notin> set (recordingId u)"
  shows "\<exists>rest. str_split ''_'' (unit_name u)
           = recordingId u # ''segment'' # str_nat (segmentIndex u) # rest"
proof -
  let ?tail = "keyword u @ ''.mp4''"
  have "str_split ''_'' (unit_name u)
          = str_split_from ''_'' [] (recordingId u @ CHR ''_'' #
              (''segment'' @ CHR ''_'' # (str_nat (segmentIndex u) @ CHR ''_'' # ?tail)))"
    by (simp add: str_split_def unit_name_def)
  also have "\<dots> = recordingId u # str_split_from ''_'' []
               (''segment'' @ CHR ''_'' # (str_nat (segmentIndex u) @ CHR ''_'' # ?tail))"
    by (subst str_split_from_piece) (simp_all add: assms)
  also have "str_split_from ''_'' []
               (''segment'' @ CHR ''_'' # (str_nat (segmentIndex u) @ CHR ''_'' # ?tail))
             = ''segment'' # str_split_from ''_'' [] (str_nat (segmentIndex u) @ CHR ''_'' # ?tail)"
    by (subst str_split_from_piece) simp_all
  also have "str_split_from ''_'' [] (str_nat (segmentIndex u) @ CHR ''_'' # ?tail)
             = str_nat (segmentIndex u) # str_split_from ''_'' [] ?tail"
    by (subst str_split_from_piece) (simp_all add: underscore_free_str_nat)
  finally show ?thesis by blast
qed

lemma segment_index_unit_name:
  assumes "CHR ''_'' \<notin> set (recordingId u)"
  shows "segment_index (unit_name u) = Inr (int (segmentIndex u))"
proof -
  from str_split_unit_name [OF assms] obtain rest where
    "str_split ''_'' (unit_name u) = recordingId u # ''segment'' # str_nat (segmentIndex u) # rest"
    by blast
  then show ?thesis by (simp add: segment_index_def py_int_str_nat)
qed

lemma with_keys_unit_names:
  assumes "\<forall>u\<in>set units. CHR ''_'' \<notin> set (recordingId u)"
  shows "with_keys (map unit_name units)
           = Inr (map (\<lambda>u. (int (segmentIndex u), unit_name u)) units)"
  using assms by (induction units) (simp_all add: segment_index_unit_name)

lemma sorted_segments_unit_names:
  assumes "\<forall>u\<in>set units. CHR ''_'' \<notin> set (recordingId u)"
  shows "sorted_segments (map unit_name units) = Inr (map unit_name (sort_key segmentIndex units))"
  by (simp add: sorted_segments_def with_keys_unit_names [OF assms] sort_key_paired
      sort_key_int comp_def)

text \<open>
  C7 (as stated): for any arrival order a group's units are ordered by segment index,
  and two units of one group with the same index make grouping fail. The second part
  does not hold: two units of recording \<open>r\<close> that both carry index 0 are grouped
  together and sorted without any error, both kept. The first part does not hold for
  every recording either: for the recording \<open>my_rec\<close> the sort raises a
  \<open>ValueError\<close>, because the third piece of the name is not the index.
\<close>

theorem duplicate_index_kept_silently:
  "group_names [''r_segment_0_goku.mp4'', ''r_segment_0_luffy.mp4'']
     = [(''r'', [''r_segment_0_goku.mp4'', ''r_segment_0_luffy.mp4''])]
   \<and> segment_index ''r_segment_0_goku.mp4'' = Inr 0
   \<and> segment_index ''r_segment_0_luffy.mp4'' = Inr 0
   \<and> sorted_segments [''r_segment_0_goku.mp4'', ''r_segment_0_luffy.mp4'']
       = Inr [''r_segment_0_goku.mp4'', ''r_segment_0_luffy.mp4'']
   \<and> sorted_segments [''my_rec_segment_1_goku.mp4'', ''my_rec_segment_0_luffy.mp4'']
       = Inl (ValueError ''segment'')"
  by code_simp

text \<open>
  C7 (amended): for any arrival order of the units of a group whose recording id contains
  no underscore, sorting succeeds and orders the units by segment index ascending; no
  unit is dropped or added, and units that carry the same index are all kept, in their
  arrival order. No error is raised for a duplicate index.
\<close>

theorem units_sorted_by_segment_index:
  assumes "\<forall>u\<in>set units. CHR ''_'' \<notin> set (recordingId u)"
  shows "\<exists>ordered. sorted_segments (map unit_name units) = Inr (map unit_name ordered)
           \<and> sorted (map segmentIndex ordered)
           \<and> mset ordered = mset units
           \<and> (\<forall>i. filter (\<lambda>u. segmentIndex u = i) ordered
                    = filter (\<lambda>u. segmentIndex u = i) units)"
proof -
  let ?ordered = "sort_key segmentIndex units"
  have "sorted_segments (map unit_name units) = Inr (map unit_name ?ordered)"
    by (rule sorted_segments_unit_names [OF assms])
  moreover have "sorted (map segmentIndex ?ordered)" by (rule sorted_sort_key)
  moreover have "mset ?ordered = mset units" by simp
  moreover have "\<forall>i. filter (\<lambda>u. segmentIndex u = i) ?ordered
                     = filter (\<lambda>u. segmentIndex u = i) units"
    by (simp add: sort_key_stable)
  ultimately show ?thesis by blast
qed

theorem units_sorted_by_segment_index_witness:
  "CHR ''_'' \<notin> set ''r''
   \<and> map unit_name [\<lparr>recordingId = ''r'', segmentIndex = 1, keyword = ''goku''\<rparr>,
                     \<lparr>recordingId = ''r'', segmentIndex = 0, keyword = ''luffy''\<rparr>]
       = [''r_segment_1_goku.mp4'', ''r_segment_0_luffy.mp4'']
   \<and> sorted_segments [''r_segment_1_goku.mp4'', ''r_segment_0_luffy.mp4'']
       = Inr [''r_segment_0_luffy.mp4'', ''r_segment_1_goku.mp4'']"
proof -
  let ?units = "[\<lparr>recordingId = ''r'', segmentIndex = 1, keyword = ''goku''\<rparr>,
                 \<lparr>recordingId = ''r'', segmentIndex = 0, keyword = ''luffy''\<rparr>]"
  have h: "\<forall>u\<in>set ?units. CHR ''_'' \<notin> set (recordingId u)" by simp
  have n: "map unit_name ?units = [''r_segment_1_goku.mp4'', ''r_segment_0_luffy.mp4'']"
    by code_simp
  from units_sorted_by_segment_index [OF h] obtain ordered where
    s: "sorted_segments (map unit_name ?units) = Inr (map unit_name ordered)"
    and o: "sorted (map segmentIndex ordered)" and m: "mset ordered = mset ?units"
    by blast
  from m have "length ordered = 2" using mset_eq_length by fastforce
  then obtain a b where ab: "ordered = [a, b]"
    by (metis (no_types) length_0_conv length_Suc_conv numeral_2_eq_2)
  with m have "{#a, b#} = {#?units ! 0, ?units ! 1#}" by (simp add: add_mset_commute)
  with o ab have "ordered = [?units ! 1, ?units ! 0]"
    by (auto simp: add_eq_conv_ex)
  moreover have "map unit_name [?units ! 1, ?units ! 0]
                   = [''r_segment_0_luffy.mp4'', ''r_segment_1_goku.mp4'']"
    by code_simp
  ultimately have "map unit_name ordered = [''r_segment_0_luffy.mp4'', ''r_segment_1_goku.mp4'']"
    by (simp only:)
  with s n show ?thesis by simp
qed

subsection \<open>The loop over the groups\<close>

lemma process_groups_append:
  "process_groups eng (xs @ ys) w =
     (case process_groups eng xs w of
        (Inl e, w') \<Rightarrow> (Inl e, w')
      | (Inr u, w') \<Rightarrow> process_groups eng ys w')"
proof (induction xs arbitrary: w)
  case Nil
  show ?case by simp
next
  case (Cons g xs)
  obtain b s where g: "g = (b, s)" by (cases g)
  show ?case
    by (simp add: g Cons.IH split: prod.splits sum.splits)
qed

text \<open>
  C1 (as stated): when one group's composition fails, the other groups still run to
  completion. With two recordings \<open>a\<close> and \<open>b\<close> and an engine that fails only on the
  narration of \<open>a\<close>, the run prints the start of \<open>a\<close> and the error and nothing else:
  \<open>b\<close> is never composed, although its composition succeeds on its own.
\<close>

theorem failed_group_stops_other_groups:
  "stdout (main (engine_rejecting ''audio/a.mp4'') two_recordings)
     = [Processing_group ''a'' 1, Error (CalledProcessError (audio_cmd ''audio/a.mp4'') 1)]
   \<and> fst (process_video_group (engine_rejecting ''audio/a.mp4'') [''b_segment_0_goku.mp4'']
            two_recordings) = Inr ()"
  by code_simp

text \<open>
  C1 (amended): when one group's composition fails, the groups composed before it have
  run to completion, and the failure ends the loop over the groups: the run stops with
  that group's error in the world that group left, whatever groups come after it; none
  of them is composed.
\<close>

theorem group_failure_stops_run:
  assumes "process_groups eng before w = (Inr (), w1)"
      and "process_video_group eng segments
             (w1\<lparr>stdout := stdout w1 @ [Processing_group base_name (length segments)]\<rparr>)
           = (Inl e, w2)"
  shows "process_groups eng (before @ (base_name, segments) # after) w = (Inl e, w2)"
  using assms by (simp add: process_groups_append and_then_def print_def)

theorem group_failure_stops_run_witness:
  "fst (process_groups (engine_rejecting ''audio/a.mp4'') [] two_recordings) = Inr ()
   \<and> fst (process_video_group (engine_rejecting ''audio/a.mp4'') [''a_segment_0_luffy.mp4'']
            (two_recordings\<lparr>stdout := stdout two_recordings @ [Processing_group ''a'' 1]\<rparr>))
       = Inl (CalledProcessError (audio_cmd ''audio/a.mp4'') 1)
   \<and> fst (process_groups (engine_rejecting ''audio/a.mp4'')
            ([] @ (''a'', [''a_segment_0_luffy.mp4'']) # [(''b'', [''b_segment_0_goku.mp4''])])
            two_recordings)
       = Inl (CalledProcessError (audio_cmd ''audio/a.mp4'') 1)"
proof -
  let ?eng = "engine_rejecting ''audio/a.mp4''"
  let ?w = "two_recordings\<lparr>stdout := stdout two_recordings @ [Processing_group ''a'' (length [''a_segment_0_luffy.mp4''])]\<rparr>"
  let ?e = "CalledProcessError (audio_cmd ''audio/a.mp4'') 1"
  have b: "process_groups ?eng [] two_recordings = (Inr (), two_recordings)" by simp
  have f: "fst (process_video_group ?eng [''a_segment_0_luffy.mp4''] ?w) = Inl ?e"
    by code_simp
  then have "process_video_group ?eng [''a_segment_0_luffy.mp4''] ?w
               = (Inl ?e, snd (process_video_group ?eng [''a_segment_0_luffy.mp4''] ?w))"
    by (simp add: prod_eq_iff)
  from group_failure_stops_run [OF b this, of "[(''b'', [''b_segment_0_goku.mp4''])]"]
  show ?thesis using f by simp
qed

subsection \<open>Temporary files\<close>






















section \<open>Properties of draft/segments.py\<close>

subsection \<open>The loop over the segments\<close>

lemma segments_loop_append:
  "segments_loop eng base i (xs @ ys) w =
     (case segments_loop eng base i xs w of
        (Inl e, w') \<Rightarrow> (Inl e, w')
      | (Inr u, w') \<Rightarrow> segments_loop eng base (i + length xs) ys w')"
proof (induction xs arbitrary: i w)
  case Nil
  show ?case by simp
next
  case (Cons s xs)
  show ?case
    by (simp add: Cons.IH split: prod.splits sum.splits)
qed

lemma assemble_one_skip:
  assumes "get_clips_for_keyword (Folder seg) w = (Inl e, w')"
  shows "assemble_one eng base i seg w
           = (Inr (), w'\<lparr>stdout := stdout w' @ [Skipping_segment i base e]\<rparr>)"
  using assms by (simp add: assemble_one_def print_def Let_def)

lemma assemble_one_create:
  assumes "get_clips_for_keyword (Folder seg) w = (Inr clips, w')"
  shows "assemble_one eng base i seg w
           = create_segment eng clips (endtime seg - starttime seg)
               (path_join SEGMENTS_DIR
                  (base @ ''_segment_'' @ str_nat i @ ''_'' @ Folder seg @ ''.mp4''))
               (w'\<lparr>stdout := stdout w' @
                     [Creating_segment i base (endtime seg - starttime seg) (Folder seg)]\<rparr>)"
  using assms by (simp add: assemble_one_def and_then_def print_def Let_def)


text \<open>
  C4 (as stated): any error raised while one segment is assembled, also during the
  concatenation or the trimming, is logged and the segment skipped, and the other
  segments and recordings are still assembled. With a first clip of \<open>luffy\<close> that the
  engine cannot read, the concatenation of segment 0 fails and the run ends with that
  error: segment 1 of the recording and the second recording are not assembled, although
  segment 1 can be assembled on its own.
\<close>

theorem concat_failure_stops_assembly:
  "stdout (main_draft stream_copy_engine clip_library_broken_luffy)
     = [Processing_file ''temp_transcriptions/rec_segments.json'',
        Creating_segment 0 ''rec'' 10 ''luffy'',
        Error (CalledProcessError copy_concat_cmd 1)]
   \<and> files (main_draft stream_copy_engine clip_library_broken_luffy)
         ''segments/rec_segment_1_naruto.mp4'' = None
   \<and> fst (assemble_one stream_copy_engine ''rec'' 1 naruto_segment clip_library_broken_luffy)
       = Inr ()"
  by code_simp

text \<open>
  C4 (amended): a failure of the clip lookup for one segment is logged and that segment
  is skipped, and the loop goes on with the next segment of the recording. An error
  raised during that segment's concatenation or trimming is not caught there: the loop
  over the recording's segments ends with that error, and the segments after it are not
  assembled.
\<close>

theorem segment_failure_handling:
  assumes "segments_loop eng base i before w = (Inr (), w1)"
  shows "(\<forall>e w2. get_clips_for_keyword (Folder seg) w1 = (Inl e, w2) \<longrightarrow>
            segments_loop eng base i (before @ seg # after) w
              = segments_loop eng base (i + length before + 1) after
                  (w2\<lparr>stdout := stdout w2 @ [Skipping_segment (i + length before) base e]\<rparr>))
       \<and> (\<forall>clips w2 e w3.
            get_clips_for_keyword (Folder seg) w1 = (Inr clips, w2)
            \<and> create_segment eng clips (endtime seg - starttime seg)
                (path_join SEGMENTS_DIR
                   (base @ ''_segment_'' @ str_nat (i + length before) @ ''_'' @ Folder seg @ ''.mp4''))
                (w2\<lparr>stdout := stdout w2 @
                      [Creating_segment (i + length before) base (endtime seg - starttime seg)
                         (Folder seg)]\<rparr>)
              = (Inl e, w3) \<longrightarrow>
            segments_loop eng base i (before @ seg # after) w = (Inl e, w3))"
proof -
  have step: "segments_loop eng base i (before @ seg # after) w
                = (case assemble_one eng base (i + length before) seg w1 of
                     (Inl e, w') \<Rightarrow> (Inl e, w')
                   | (Inr u, w') \<Rightarrow> segments_loop eng base (i + length before + 1) after w')"
    by (simp add: segments_loop_append assms)
  show ?thesis
  proof (intro conjI allI impI)
    fix e w2 assume "get_clips_for_keyword (Folder seg) w1 = (Inl e, w2)"
    from assemble_one_skip [OF this] show
      "segments_loop eng base i (before @ seg # after) w
         = segments_loop eng base (i + length before + 1) after
             (w2\<lparr>stdout := stdout w2 @ [Skipping_segment (i + length before) base e]\<rparr>)"
      by (simp add: step)
  next
    fix clips w2 e w3
    assume a: "get_clips_for_keyword (Folder seg) w1 = (Inr clips, w2)
      \<and> create_segment eng clips (endtime seg - starttime seg)
          (path_join SEGMENTS_DIR
             (base @ ''_segment_'' @ str_nat (i + length before) @ ''_'' @ Folder seg @ ''.mp4''))
          (w2\<lparr>stdout := stdout w2 @
                [Creating_segment (i + length before) base (endtime seg - starttime seg)
                   (Folder seg)]\<rparr>)
        = (Inl e, w3)"
    then have "assemble_one eng base (i + length before) seg w1 = (Inl e, w3)"
      using assemble_one_create [of seg w1 clips w2 eng base "i + length before"] by simp
    then show "segments_loop eng base i (before @ seg # after) w = (Inl e, w3)"
      by (simp add: step)
  qed
qed




lemma get_clips_for_keyword_world: "snd (get_clips_for_keyword k w) = w"
  by (simp add: get_clips_for_keyword_def and_then_def listdir_def raise_def return_def Let_def
      split: option.splits)

theorem segment_failure_handling_witness:
  "fst (get_clips_for_keyword (Folder luffy_segment) clip_library_without_luffy)
     = Inl (FileNotFoundError ''luffy'')
   \<and> stdout (snd (segments_loop stream_copy_engine ''rec'' 0
                     ([] @ luffy_segment # [naruto_segment]) clip_library_without_luffy))
     = [Skipping_segment 0 ''rec'' (FileNotFoundError ''luffy''),
        Creating_segment 1 ''rec'' 5 ''naruto'']
   \<and> fst (get_clips_for_keyword (Folder luffy_segment) clip_library_broken_luffy)
     = Inr [''clips/luffy/l1.mp4'', ''clips/luffy/l2.mp4'']
   \<and> fst (segments_loop stream_copy_engine ''rec'' 0
             ([] @ luffy_segment # [naruto_segment]) clip_library_broken_luffy)
     = Inl (CalledProcessError copy_concat_cmd 1)"
proof -
  let ?eng = stream_copy_engine
  let ?w = clip_library_without_luffy
  let ?b = clip_library_broken_luffy
  have s: "segments_loop ?eng ''rec'' 0 [] ?w = (Inr (), ?w)"
          "segments_loop ?eng ''rec'' 0 [] ?b = (Inr (), ?b)"
    by simp_all
  have f1: "fst (get_clips_for_keyword (Folder luffy_segment) ?w) = Inl (FileNotFoundError ''luffy'')"
    by code_simp
  then have g1: "get_clips_for_keyword (Folder luffy_segment) ?w = (Inl (FileNotFoundError ''luffy''), ?w)"
    by (simp add: prod_eq_iff get_clips_for_keyword_world)
  from segment_failure_handling [OF s(1), of luffy_segment "[naruto_segment]"] g1
  have "segments_loop ?eng ''rec'' 0 ([] @ luffy_segment # [naruto_segment]) ?w
          = segments_loop ?eng ''rec'' (0 + length ([] :: timestamp list) + 1) [naruto_segment]
              (?w\<lparr>stdout := stdout ?w @
                    [Skipping_segment (0 + length ([] :: timestamp list)) ''rec''
                       (FileNotFoundError ''luffy'')]\<rparr>)"
    by blast
  moreover have "stdout (snd (segments_loop ?eng ''rec'' (0 + length ([] :: timestamp list) + 1)
                    [naruto_segment]
                    (?w\<lparr>stdout := stdout ?w @
                          [Skipping_segment (0 + length ([] :: timestamp list)) ''rec''
                             (FileNotFoundError ''luffy'')]\<rparr>)))
                 = [Skipping_segment 0 ''rec'' (FileNotFoundError ''luffy''),
                    Creating_segment 1 ''rec'' 5 ''naruto'']"
    by code_simp
  ultimately have r1: "stdout (snd (segments_loop ?eng ''rec'' 0
                          ([] @ luffy_segment # [naruto_segment]) ?w))
                       = [Skipping_segment 0 ''rec'' (FileNotFoundError ''luffy''),
                          Creating_segment 1 ''rec'' 5 ''naruto'']"
    by simp
  let ?clips = "[''clips/luffy/l1.mp4'', ''clips/luffy/l2.mp4'']"
  let ?create = "create_segment ?eng ?clips (endtime luffy_segment - starttime luffy_segment)
      (path_join SEGMENTS_DIR
         (''rec'' @ ''_segment_'' @ str_nat (0 + length ([] :: timestamp list)) @ ''_''
            @ Folder luffy_segment @ ''.mp4''))
      (?b\<lparr>stdout := stdout ?b @
            [Creating_segment (0 + length ([] :: timestamp list)) ''rec''
               (endtime luffy_segment - starttime luffy_segment) (Folder luffy_segment)]\<rparr>)"
  have f2: "fst (get_clips_for_keyword (Folder luffy_segment) ?b) = Inr ?clips"
    by code_simp
  then have g2: "get_clips_for_keyword (Folder luffy_segment) ?b = (Inr ?clips, ?b)"
    by (simp add: prod_eq_iff get_clips_for_keyword_world)
  have "fst ?create = Inl (CalledProcessError copy_concat_cmd 1)"
    by code_simp
  then have c: "?create = (Inl (CalledProcessError copy_concat_cmd 1), snd ?create)"
    by (simp add: prod_eq_iff)
  from segment_failure_handling [OF s(2), of luffy_segment "[naruto_segment]"] g2 c
  have "segments_loop ?eng ''rec'' 0 ([] @ luffy_segment # [naruto_segment]) ?b
          = (Inl (CalledProcessError copy_concat_cmd 1), snd ?create)"
    by blast
  then have r2: "fst (segments_loop ?eng ''rec'' 0 ([] @ luffy_segment # [naruto_segment]) ?b)
                   = Inl (CalledProcessError copy_concat_cmd 1)"
    by simp
  from f1 r1 f2 r2 show ?thesis by simp
qed

subsection \<open>Assembling one segment\<close>

lemma subprocess_run_ok:
  assumes "eng cmd (files w) = (0, Some c)"
  shows "subprocess_run eng cmd w = (Inr (), w\<lparr>files := (files w)(output_of cmd \<mapsto> c)\<rparr>)"
  using assms by (simp add: subprocess_run_def)

lemma os_remove_ok:
  assumes "files w p \<noteq> None" and "p \<notin> locked w"
  shows "os_remove p w = (Inr (), w\<lparr>files := (files w)(p := None)\<rparr>)"
  using assms by (simp add: os_remove_def)

text \<open>
  What \<open>create_segment\<close> does when both engine invocations exit with status 0 and
  leave their output, and the two temporary files can be removed: it returns normally,
  and the segment is what the trimming invocation wrote. The clips' durations are never
  read.
\<close>

lemma create_segment_succeeds_without_duration_check:
  assumes e1: "eng copy_concat_cmd ((files w)(list_file \<mapsto> Text (map concat_line clips))) = (0, Some c1)"
      and e2: "eng (trim_cmd duration out)
             ((files w)(list_file \<mapsto> Text (map concat_line clips), temp_output \<mapsto> c1)) = (0, Some c2)"
      and out: "out \<noteq> list_file" "out \<noteq> temp_output"
      and unlocked: "list_file \<notin> locked w" "temp_output \<notin> locked w"
  shows "fst (create_segment eng clips duration out w) = Inr ()
         \<and> files (snd (create_segment eng clips duration out w)) out = Some c2"
proof -
  have d: "list_file \<noteq> temp_output" by (simp add: list_file_def temp_output_def)
  have o1: "output_of copy_concat_cmd = temp_output"
    by (simp add: output_of_def copy_concat_cmd_def)
  have o2: "output_of (trim_cmd duration out) = out"
    by (simp add: output_of_def trim_cmd_def)
  define w1 where "w1 = w\<lparr>files := (files w)(list_file \<mapsto> Text (map concat_line clips))\<rparr>"
  define w2 where "w2 = w1\<lparr>files := (files w1)(temp_output \<mapsto> c1)\<rparr>"
  define w3 where "w3 = w2\<lparr>files := (files w2)(out \<mapsto> c2)\<rparr>"
  define w4 where "w4 = w3\<lparr>files := (files w3)(list_file := None)\<rparr>"
  define w5 where "w5 = w4\<lparr>files := (files w4)(temp_output := None)\<rparr>"
  have s0: "write_lines list_file (map concat_line clips) w = (Inr (), w1)"
    by (simp add: write_lines_def w1_def)
  have "eng copy_concat_cmd (files w1) = (0, Some c1)" using e1 by (simp add: w1_def)
  from subprocess_run_ok [of eng copy_concat_cmd w1 c1, OF this]
  have s1: "subprocess_run eng copy_concat_cmd w1 = (Inr (), w2)"
    by (simp add: o1 w2_def)
  have "eng (trim_cmd duration out) (files w2) = (0, Some c2)"
    using e2 by (simp add: w2_def w1_def)
  from subprocess_run_ok [of eng "trim_cmd duration out" w2 c2, OF this]
  have s2: "subprocess_run eng (trim_cmd duration out) w2 = (Inr (), w3)"
    by (simp add: o2 w3_def)
  have "files w3 list_file \<noteq> None" "list_file \<notin> locked w3"
    using out d unlocked by (simp_all add: w3_def w2_def w1_def)
  from os_remove_ok [OF this]
  have s3: "os_remove list_file w3 = (Inr (), w4)"
    by (simp add: w4_def)
  have "files w4 temp_output \<noteq> None" "temp_output \<notin> locked w4"
    using out d unlocked by (simp_all add: w4_def w3_def w2_def w1_def)
  from os_remove_ok [OF this]
  have s4: "os_remove temp_output w4 = (Inr (), w5)"
    by (simp add: w5_def)
  have "create_segment eng clips duration out w = (Inr (), w5)"
    by (simp add: create_segment_def and_then_def s0 s1 s2 s3 s4)
  moreover have "files w5 out = Some c2"
    using out by (simp add: w5_def w4_def w3_def)
  ultimately show ?thesis by simp
qed

text \<open>
  C3: when the clips together are shorter than the target duration, segment assembly
  must fail with an error rather than produce a shorter output. The code does not: its
  docstring promises a segment of exact duration, but with two clips of one second each
  and a target of ten seconds, and an engine that copies streams, \<open>create_segment\<close>
  returns normally and the segment lasts two seconds.
\<close>

theorem short_clips_give_short_segment:
  "media_duration (files clip_library) ''clips/luffy/l1.mp4'' = Some 1
   \<and> media_duration (files clip_library) ''clips/luffy/l2.mp4'' = Some 1
   \<and> fst (create_segment stream_copy_engine [''clips/luffy/l1.mp4'', ''clips/luffy/l2.mp4'']
            10 ''segments/rec_segment_0_luffy.mp4'' clip_library) = Inr ()
   \<and> files (snd (create_segment stream_copy_engine
                   [''clips/luffy/l1.mp4'', ''clips/luffy/l2.mp4'']
                   10 ''segments/rec_segment_0_luffy.mp4'' clip_library))
         ''segments/rec_segment_0_luffy.mp4'' = Some (Media 2)"
  by code_simp

end
